theory Spec2Isabelle
  imports Main "HOL-Library.Word"
begin

unbundle bit_operations_syntax

section \<open>Python objects, exceptions and outcomes\<close>

text \<open>
  The extension module \<^verbatim>\<open>fsd.c\<close> exchanges Python objects with its callers. Only the
  shapes that the module inspects or builds are modelled: \<open>None\<close>, integers (Python 2
  \<open>int\<close> and \<open>long\<close> alike, with their mathematical value), tuples, and any other
  object (\<open>PyOther\<close>: a string, a float, ...), which is all the module learns from a failed
  \<^verbatim>\<open>PyInt_Check\<close> and \<^verbatim>\<open>PyLong_Check\<close>.
\<close>

datatype pyobj = PyNone | PyInt int | PyTuple "pyobj list" | PyOther

text \<open>
  The exceptions the module raises, each with the message given to \<^verbatim>\<open>PyErr_SetString\<close>
  or produced by \<^verbatim>\<open>PyErr_Format\<close>.
\<close>

datatype py_exc = ValueError string | KeyError string | RuntimeError string

text \<open>
  A call either returns, raises, or leaves the behaviour C defines: a read outside the
  bytes of the string object, a signed overflow, or a \<^verbatim>\<open>bsearch\<close> over a negative element
  count. The last three are kept as outcomes of their own, so that no theorem can talk
  about a value that the C program never had.
\<close>

datatype ub = OutOfBoundsRead | SignedOverflow | NegativeCount

datatype fault = Raised py_exc | Undefined ub

subsection \<open>Formatting with \<^verbatim>\<open>%d\<close>\<close>

function dec_digits :: "nat \<Rightarrow> string" where
  "dec_digits n =
     (if n < 10 then [''0123456789'' ! n]
      else dec_digits (n div 10) @ [''0123456789'' ! (n mod 10)])"
  by pat_completeness auto
termination
  by (relation "measure id") auto

declare dec_digits.simps [simp del]

text \<open>\<^verbatim>\<open>%d\<close> prints its argument as a signed decimal number.\<close>

definition fmt_d :: "int \<Rightarrow> string" where
  "fmt_d i = (if i < 0 then CHR ''-'' # dec_digits (nat (- i)) else dec_digits (nat i))"

subsection \<open>The C \<^verbatim>\<open>long\<close>\<close>

text \<open>
  \<^verbatim>\<open>long\<close> is 32 bits wide on Windows and on 32-bit Unix, 64 bits on 64-bit Unix.
  \<^verbatim>\<open>PyInt_AsLong\<close> returns the value of a Python integer that fits a \<^verbatim>\<open>long\<close>; for one
  that does not it sets OverflowError and returns \<open>-1\<close>. Neither caller in this module
  looks at the error indicator, so only the returned number is modelled.
\<close>

datatype c_long = Long32 | Long64

fun LONG_MAX :: "c_long \<Rightarrow> int" where
  "LONG_MAX Long32 = 2147483647"
| "LONG_MAX Long64 = 9223372036854775807"

definition PyInt_AsLong :: "c_long \<Rightarrow> int \<Rightarrow> int" where
  "PyInt_AsLong lw v = (if - LONG_MAX lw - 1 \<le> v \<and> v \<le> LONG_MAX lw then v else - 1)"

section \<open>Memory\<close>

text \<open>
  The bytes of a Python string are a list of octets. \<^verbatim>\<open>*(uint32_t *)&s[p]\<close> reads four
  of them in the byte order of the host, little-endian on the machines the module is
  built for; the read is defined only when all four lie inside the string. The
  alignment of \<open>p\<close> is not modelled.
\<close>

type_synonym byte = "8 word"

definition le32 :: "byte \<Rightarrow> byte \<Rightarrow> byte \<Rightarrow> byte \<Rightarrow> 32 word" where
  "le32 b0 b1 b2 b3 =
     ucast b0 OR push_bit 8 (ucast b1) OR push_bit 16 (ucast b2) OR push_bit 24 (ucast b3)"

definition load32 :: "byte list \<Rightarrow> int \<Rightarrow> 32 word option" where
  "load32 mem p =
     (if 0 \<le> p \<and> p + 4 \<le> int (length mem)
      then Some (le32 (mem ! nat p) (mem ! nat (p + 1)) (mem ! nat (p + 2)) (mem ! nat (p + 3)))
      else None)"

text \<open>The four bytes that hold a 32-bit value in little-endian order.\<close>

definition u32_bytes :: "32 word \<Rightarrow> byte list" where
  "u32_bytes w = [ucast w, ucast (drop_bit 8 w), ucast (drop_bit 16 w), ucast (drop_bit 24 w)]"

section \<open>Unpacking functions\<close>

text \<open>
  \<^verbatim>\<open>fsd_uint32_from\<close> and \<^verbatim>\<open>fsd_int32_from\<close>, after argument parsing: \<open>s\<close> are the bytes
  of the buffer, \<open>size\<close> is their number, \<open>offset\<close> is a C \<^verbatim>\<open>int\<close>.
\<close>

definition fsd_uint32_from :: "byte list \<Rightarrow> 32 word \<Rightarrow> fault + pyobj" where
  "fsd_uint32_from s offset =
     (let size = int (length s) in
      if sint offset \<ge> 0 \<and> sint offset \<le> size - 4
      then (case load32 s (sint offset) of
              None \<Rightarrow> Inl (Undefined OutOfBoundsRead)
            | Some w \<Rightarrow> Inr (PyInt (uint w)))
      else Inl (Raised (ValueError ''_uint32_from requires a buffer of at least 4 bytes'')))"

definition fsd_int32_from :: "byte list \<Rightarrow> 32 word \<Rightarrow> fault + pyobj" where
  "fsd_int32_from s offset =
     (let size = int (length s) in
      if sint offset \<ge> 0 \<and> sint offset \<le> size - 4
      then (case load32 s (sint offset) of
              None \<Rightarrow> Inl (Undefined OutOfBoundsRead)
            | Some w \<Rightarrow> Inr (PyInt (sint w)))
      else Inl (Raised (ValueError ''_int32_from requires a buffer of at least 4 bytes'')))"

section \<open>The key map\<close>

text \<open>
  Modelled from the spec: the header \<^verbatim>\<open>fsd.h\<close> with the declarations of
  \<^verbatim>\<open>keymap_entry\<close>, \<^verbatim>\<open>PyKeyMapObject\<close> and \<^verbatim>\<open>PyKeyMapIteratorObject\<close> is not part of
  the sources at hand. A \<^verbatim>\<open>keymap_entry\<close> is twelve bytes: the unsigned 32-bit fields
  \<open>key\<close>, \<open>value1\<close> and \<open>value2\<close> at byte offsets 0, 4 and 8. The key map holds the
  string object it borrows from (\<open>km_ref\<close>, here its bytes), a pointer into those bytes
  (\<open>km_data\<close>, here the position in the byte list) and an \<^verbatim>\<open>int\<close> count. The iterator
  holds the key map, an \<^verbatim>\<open>int\<close> index and an \<^verbatim>\<open>int\<close> mode.
\<close>

record PyKeyMapObject =
  km_ref :: "byte list"
  km_data :: int
  km_length :: "32 word"

record PyKeyMapIteratorObject =
  kmi_keymap :: PyKeyMapObject
  kmi_index :: "32 word"
  kmi_mode :: "32 word"

text \<open>Field reads through a pointer \<open>entry\<close> to a \<^verbatim>\<open>keymap_entry\<close>.\<close>

definition entry_key :: "PyKeyMapObject \<Rightarrow> int \<Rightarrow> 32 word option" where
  "entry_key km entry = load32 (km_ref km) entry"

definition entry_value1 :: "PyKeyMapObject \<Rightarrow> int \<Rightarrow> 32 word option" where
  "entry_value1 km entry = load32 (km_ref km) (entry + 4)"

definition entry_value2 :: "PyKeyMapObject \<Rightarrow> int \<Rightarrow> 32 word option" where
  "entry_value2 km entry = load32 (km_ref km) (entry + 8)"

text \<open>
  \<^verbatim>\<open>PyLong_FromUnsignedLong\<close> and \<^verbatim>\<open>Py_BuildValue\<close> with the formats \<^verbatim>\<open>"II"\<close> and
  \<^verbatim>\<open>"I(II)"\<close>, applied to fields that were read; \<open>None\<close> stands for a field whose read
  was out of bounds.
\<close>

definition build_I :: "32 word option \<Rightarrow> pyobj option" where
  "build_I a = (case a of Some x \<Rightarrow> Some (PyInt (uint x)) | None \<Rightarrow> None)"

definition build_II :: "32 word option \<Rightarrow> 32 word option \<Rightarrow> pyobj option" where
  "build_II a b =
     (case (a, b) of
        (Some x, Some y) \<Rightarrow> Some (PyTuple [PyInt (uint x), PyInt (uint y)])
      | _ \<Rightarrow> None)"

definition build_I_II :: "32 word option \<Rightarrow> 32 word option \<Rightarrow> 32 word option \<Rightarrow> pyobj option" where
  "build_I_II k a b =
     (case (k, a, b) of
        (Some z, Some x, Some y) \<Rightarrow>
          Some (PyTuple [PyInt (uint z), PyTuple [PyInt (uint x), PyInt (uint y)]])
      | _ \<Rightarrow> None)"

subsection \<open>The iterator\<close>

text \<open>\<^verbatim>\<open>_iter\<close>: the allocator zeroes the new object, so the index starts at 0.\<close>

definition internal_iter :: "PyKeyMapObject \<Rightarrow> 32 word \<Rightarrow> PyKeyMapIteratorObject" where
  "internal_iter keymap mode = \<lparr>kmi_keymap = keymap, kmi_index = 0, kmi_mode = mode\<rparr>"

text \<open>
  \<^verbatim>\<open>keymapiter_next\<close> returns the outcome and the iterator as the call leaves it. A
  \<^verbatim>\<open>NULL\<close> return without an exception ends the iteration: \<open>Inr None\<close>.
\<close>

definition yield :: "pyobj option \<Rightarrow> fault + pyobj option" where
  "yield r = (case r of None \<Rightarrow> Inl (Undefined OutOfBoundsRead) | Some v \<Rightarrow> Inr (Some v))"

definition keymapiter_next ::
  "PyKeyMapIteratorObject \<Rightarrow> (fault + pyobj option) \<times> PyKeyMapIteratorObject" where
  "keymapiter_next self =
     (if sint (kmi_index self) < 0 \<or> sint (kmi_index self) \<ge> sint (km_length (kmi_keymap self))
      then (Inr None, self)
      else
        let km = kmi_keymap self;
            entry = km_data km + 12 * sint (kmi_index self);
            self' = self\<lparr>kmi_index := kmi_index self + 1\<rparr>
        in
          if kmi_mode self = 0 then (yield (build_I (entry_key km entry)), self')
          else if kmi_mode self = 1 then
            (yield (build_II (entry_value1 km entry) (entry_value2 km entry)), self')
          else if kmi_mode self = 2 then
            (yield (build_I_II (entry_key km entry) (entry_value1 km entry) (entry_value2 km entry)),
             self')
          else if kmi_mode self = 3 then (yield (build_I (entry_value1 km entry)), self')
          else if kmi_mode self = 4 then
            (yield (build_II (entry_key km entry) (entry_value1 km entry)), self')
          else
            (Inl (Raised (RuntimeError
                (''Invalid mode for KeyMapIterator: '' @ fmt_d (sint (kmi_mode self))))),
             self'))"

subsection \<open>Initialize\<close>

text \<open>\<^verbatim>\<open>keymap_new\<close>: a zeroed object.\<close>

definition keymap_new :: PyKeyMapObject where
  "keymap_new = \<lparr>km_ref = [], km_data = 0, km_length = 0\<rparr>"

text \<open>
  \<^verbatim>\<open>keymap_initialize\<close>, after argument parsing: \<open>data\<close> are the bytes of the string,
  \<open>offset\<close> is a C \<^verbatim>\<open>int\<close>, \<open>size\<close> a \<^verbatim>\<open>Py_ssize_t\<close>. The sum \<^verbatim>\<open>offset+4\<close> is computed in
  \<^verbatim>\<open>int\<close> and must not exceed \<open>2147483647\<close>, which it can only in a buffer of 2 GiB or
  more. The call returns \<open>None\<close>; the model returns the object as the call leaves it.
\<close>

definition keymap_initialize ::
  "PyKeyMapObject \<Rightarrow> byte list \<Rightarrow> 32 word \<Rightarrow> fault + PyKeyMapObject" where
  "keymap_initialize self data offset =
     (let size = int (length data) in
      if sint offset > size - 4
      then Inl (Raised (ValueError ''Initialize requires a buffer of at least 4 bytes''))
      else
        case load32 data (sint offset) of
          None \<Rightarrow> Inl (Undefined OutOfBoundsRead)
        | Some len \<Rightarrow>
            if sint offset + 4 > 2147483647 then Inl (Undefined SignedOverflow)
            else
              let data' = sint offset + 4;
                  size' = size - (sint offset + 4)
              in
                if size' < sint len
                then Inl (Raised (ValueError
                       (''Not enough data in buffer, expected '' @ fmt_d (sint len) @ '' bytes'')))
                else Inr (self\<lparr>km_data := data', km_length := len, km_ref := data\<rparr>))"

definition keymap_obj_length :: "PyKeyMapObject \<Rightarrow> 32 word" where
  "keymap_obj_length self = km_length self"

subsection \<open>Lookup\<close>

text \<open>
  \<^verbatim>\<open>_keycmp\<close> subtracts two unsigned 32-bit keys and returns the difference as an
  \<^verbatim>\<open>int\<close>.
\<close>

definition keycmp :: "32 word \<Rightarrow> 32 word \<Rightarrow> int" where
  "keycmp a_key b_key = sint (a_key - b_key)"

text \<open>
  \<^verbatim>\<open>bsearch\<close> of the C library (the loop of the GNU C library): \<open>l\<close> and \<open>u\<close> bound the
  elements still to be searched, \<open>base\<close> points to the first element, each element is
  \<open>width\<close> bytes. The comparison function is \<^verbatim>\<open>_keycmp\<close>, whose first argument points to
  the key \<open>k\<close> searched for and whose second argument points to the element probed. The
  result is a pointer to the element found.
\<close>

function bsearch ::
  "PyKeyMapObject \<Rightarrow> 32 word \<Rightarrow> int \<Rightarrow> int \<Rightarrow> nat \<Rightarrow> nat \<Rightarrow> fault + int option" where
  "bsearch km k base width l u =
     (if l < u then
        (let idx = (l + u) div 2;
             p = base + int idx * width
         in case entry_key km p of
              None \<Rightarrow> Inl (Undefined OutOfBoundsRead)
            | Some b_key \<Rightarrow>
                if keycmp k b_key < 0 then bsearch km k base width l idx
                else if keycmp k b_key > 0 then bsearch km k base width (idx + 1) u
                else Inr (Some p))
      else Inr None)"
  by pat_completeness auto
termination
  by (relation "measure (\<lambda>(km, k, base, width, l, u). u - l)") auto

declare bsearch.simps [simp del]

text \<open>
  \<^verbatim>\<open>_internal_get\<close>. The element count handed to \<^verbatim>\<open>bsearch\<close> is \<^verbatim>\<open>km_length\<close>
  converted to \<^verbatim>\<open>size_t\<close>; a negative count becomes one of more than \<open>2^31\<close> elements,
  which no buffer holds. \<^verbatim>\<open>PyErr_Format\<close> prints the unsigned key with \<^verbatim>\<open>%d\<close>.
\<close>

definition internal_get :: "c_long \<Rightarrow> PyKeyMapObject \<Rightarrow> pyobj \<Rightarrow> int \<Rightarrow> fault + pyobj" where
  "internal_get lw self key raise =
     (case key of
        PyInt v \<Rightarrow>
          (let k = (word_of_int (PyInt_AsLong lw v) :: 32 word) in
           if sint (km_length self) < 0 then Inl (Undefined NegativeCount)
           else
             case bsearch self k (km_data self) 12 0 (nat (sint (km_length self))) of
               Inl f \<Rightarrow> Inl f
             | Inr None \<Rightarrow>
                 if raise \<noteq> 0 then Inl (Raised (KeyError (fmt_d (sint k))))
                 else Inr PyNone
             | Inr (Some entry) \<Rightarrow>
                 (case build_II (entry_value1 self entry) (entry_value2 self entry) of
                    None \<Rightarrow> Inl (Undefined OutOfBoundsRead)
                  | Some r \<Rightarrow> Inr r))
      | _ \<Rightarrow> Inl (Raised (ValueError ''get called with non-integer key'')))"

definition keymap_get :: "c_long \<Rightarrow> PyKeyMapObject \<Rightarrow> pyobj \<Rightarrow> fault + pyobj" where
  "keymap_get lw self key = internal_get lw self key 0"

definition keymap_mp_subscript :: "c_long \<Rightarrow> PyKeyMapObject \<Rightarrow> pyobj \<Rightarrow> fault + pyobj" where
  "keymap_mp_subscript lw self key = internal_get lw self key 1"

definition keymap_iterkeys :: "PyKeyMapObject \<Rightarrow> PyKeyMapIteratorObject" where
  "keymap_iterkeys self = internal_iter self 0"

definition keymap_itervalues :: "PyKeyMapObject \<Rightarrow> PyKeyMapIteratorObject" where
  "keymap_itervalues self = internal_iter self 1"

definition keymap_iteritems :: "PyKeyMapObject \<Rightarrow> PyKeyMapIteratorObject" where
  "keymap_iteritems self = internal_iter self 2"

text \<open>
  \<^verbatim>\<open>keymap_iterspecial\<close> on a Python integer \<open>pymode\<close>: the \<^verbatim>\<open>long\<close> that
  \<^verbatim>\<open>PyInt_AsLong\<close> returns is cut down to an \<^verbatim>\<open>int\<close>.
\<close>

definition keymap_iterspecial :: "c_long \<Rightarrow> PyKeyMapObject \<Rightarrow> int \<Rightarrow> PyKeyMapIteratorObject" where
  "keymap_iterspecial lw self pymode = internal_iter self (word_of_int (PyInt_AsLong lw pymode))"

section \<open>Driving an iterator, and buffers that hold records\<close>

text \<open>
  A Python \<^verbatim>\<open>for\<close> loop calls \<^verbatim>\<open>tp_iternext\<close> until it signals the end or raises, and
  collects what it returned. The index grows with every item and stays below the
  count, so the loop ends.
\<close>

function exhaust :: "PyKeyMapIteratorObject \<Rightarrow> fault + pyobj list" where
  "exhaust self =
     (case keymapiter_next self of
        (Inl f, self') \<Rightarrow> Inl f
      | (Inr None, self') \<Rightarrow> Inr []
      | (Inr (Some v), self') \<Rightarrow>
          (case exhaust self' of Inl f \<Rightarrow> Inl f | Inr vs \<Rightarrow> Inr (v # vs)))"
  by pat_completeness auto
termination
proof (relation "measure (\<lambda>self. nat (sint (km_length (kmi_keymap self)) - sint (kmi_index self)))")
  show "wf (measure (\<lambda>self. nat (sint (km_length (kmi_keymap self)) - sint (kmi_index self))))"
    by simp
next
  fix self :: PyKeyMapIteratorObject and r self' ro v
  assume a: "(r, self') = keymapiter_next self" "r = Inr ro" "ro = Some v"
  let ?i = "kmi_index self" and ?n = "km_length (kmi_keymap self)"
  from a have rng: "0 \<le> sint ?i" "sint ?i < sint ?n"
    by (auto simp: keymapiter_next_def split: if_splits)
  with a have s': "self' = self\<lparr>kmi_index := ?i + 1\<rparr>"
    by (auto simp: keymapiter_next_def Let_def split: if_splits)
  have "sint ?n \<le> 2147483647" using sint_lt [of ?n] by simp
  with rng have lo: "- 2147483648 \<le> sint ?i + 1" "sint ?i + 1 < 2147483648" by simp_all
  have "sint (?i + 1) = signed_take_bit 31 (sint ?i + 1)"
    by (simp add: sint_word_ariths)
  also have "\<dots> = sint ?i + 1"
    using lo by (simp add: signed_take_bit_int_eq_self)
  finally have "sint (?i + 1) = sint ?i + 1" .
  with rng s' show "(self', self) \<in> measure (\<lambda>self. nat (sint (km_length (kmi_keymap self)) - sint (kmi_index self)))"
    by simp
qed

declare exhaust.simps [simp del]

text \<open>
  The bytes of one record, and the key map whose record region follows \<open>pre\<close> in the
  buffer \<open>pre @ records @ post\<close> and holds exactly the records \<open>recs\<close>.
\<close>

type_synonym entry = "32 word \<times> 32 word \<times> 32 word"

definition enc_record :: "entry \<Rightarrow> byte list" where
  "enc_record r = (case r of (key, value1, value2) \<Rightarrow>
     u32_bytes key @ u32_bytes value1 @ u32_bytes value2)"

definition table_of :: "byte list \<Rightarrow> entry list \<Rightarrow> byte list \<Rightarrow> PyKeyMapObject" where
  "table_of pre recs post =
     \<lparr>km_ref = pre @ concat (map enc_record recs) @ post,
      km_data = int (length pre),
      km_length = word_of_nat (length recs)\<rparr>"

text \<open>
  The projection that each of the five modes selects, written from the table of the
  specification (keys, values, items, values without the second value, items without
  the second value), to be compared with what \<^verbatim>\<open>keymapiter_next\<close> returns.
\<close>

definition spec_projection :: "32 word \<Rightarrow> entry \<Rightarrow> pyobj" where
  "spec_projection mode r = (case r of (key, value1, value2) \<Rightarrow>
     if mode = 0 then PyInt (uint key)
     else if mode = 1 then PyTuple [PyInt (uint value1), PyInt (uint value2)]
     else if mode = 2 then
       PyTuple [PyInt (uint key), PyTuple [PyInt (uint value1), PyInt (uint value2)]]
     else if mode = 3 then PyInt (uint value1)
     else PyTuple [PyInt (uint key), PyInt (uint value1)])"

section \<open>Reading what was written\<close>

lemma le32_u32_bytes:
  "le32 (ucast w) (ucast (drop_bit 8 w)) (ucast (drop_bit 16 w)) (ucast (drop_bit 24 w)) = w"
  unfolding le32_def
  apply (rule bit_word_eqI)
  apply (simp add: bit_simps)
  apply (case_tac "n < 8"; case_tac "n < 16"; case_tac "n < 24"; simp)
    apply auto
  done

lemma length_u32_bytes [simp]: "length (u32_bytes w) = 4"
  by (simp add: u32_bytes_def)

lemma load32_u32_bytes: "load32 (pre @ u32_bytes w @ post) (int (length pre)) = Some w"
proof -
  have n: "nat (int (length pre) + 1) = length pre + 1"
    "nat (int (length pre) + 2) = length pre + 2"
    "nat (int (length pre) + 3) = length pre + 3" by simp_all
  show ?thesis
    by (simp add: load32_def n u32_bytes_def le32_u32_bytes nth_append)
qed

lemma length_enc_record [simp]: "length (enc_record r) = 12"
  by (cases r) (simp add: enc_record_def)

lemma length_concat_enc [simp]: "length (concat (map enc_record rs)) = 12 * length rs"
  by (induction rs) simp_all

lemma load32_shift:
  "p = int (length pre) \<Longrightarrow> load32 (pre @ u32_bytes w @ post) p = Some w"
  by (simp add: load32_u32_bytes)

lemma table_fields:
  assumes i: "i < length recs" and r: "recs ! i = (k, a, b)"
    and mem_def: "mem = pre @ concat (map enc_record recs) @ post"
    and e_def: "e = int (length pre) + 12 * int i"
  shows "load32 mem e = Some k" and "load32 mem (e + 4) = Some a" and "load32 mem (e + 8) = Some b"
proof -
  define A where "A = pre @ concat (map enc_record (take i recs))"
  define Z where "Z = concat (map enc_record (drop (Suc i) recs)) @ post"
  have lenA: "int (length A) = e"
    using i by (simp add: A_def e_def min_def)
  have split: "recs = take i recs @ (k, a, b) # drop (Suc i) recs"
    using id_take_nth_drop [OF i] r by simp
  have "concat (map enc_record (take i recs @ (k, a, b) # drop (Suc i) recs)) =
      concat (map enc_record (take i recs)) @ enc_record (k, a, b)
        @ concat (map enc_record (drop (Suc i) recs))"
    by simp
  with split have "concat (map enc_record recs) =
      concat (map enc_record (take i recs)) @ enc_record (k, a, b)
        @ concat (map enc_record (drop (Suc i) recs))"
    by simp
  then have m: "mem = A @ u32_bytes k @ u32_bytes a @ u32_bytes b @ Z"
    by (simp add: mem_def A_def Z_def enc_record_def)
  show "load32 mem e = Some k"
    unfolding m by (rule load32_shift) (simp add: lenA)
  have "mem = (A @ u32_bytes k) @ u32_bytes a @ (u32_bytes b @ Z)"
    by (simp add: m)
  moreover have "e + 4 = int (length (A @ u32_bytes k))"
    using lenA by simp
  ultimately show "load32 mem (e + 4) = Some a"
    by (simp only: load32_shift)
  have "mem = (A @ u32_bytes k @ u32_bytes a) @ u32_bytes b @ Z"
    by (simp add: m)
  moreover have "e + 8 = int (length (A @ u32_bytes k @ u32_bytes a))"
    using lenA by simp
  ultimately show "load32 mem (e + 8) = Some b"
    by (simp only: load32_shift)
qed


subsection \<open>C integers without wrap-around\<close>

lemma sint_succ:
  fixes x y :: "32 word"
  assumes "sint x < sint y"
  shows "sint (x + 1) = sint x + 1"
proof -
  have "sint y \<le> 2147483647" using sint_lt [of y] by simp
  moreover have "- 2147483648 \<le> sint x" using sint_ge [of x] by simp
  ultimately have b: "- 2147483648 \<le> sint x + 1" "sint x + 1 < 2147483648"
    using assms by simp_all
  have "sint (x + 1) = signed_take_bit 31 (sint x + 1)"
    by (simp add: sint_word_ariths)
  also have "\<dots> = sint x + 1"
    using b by (simp add: signed_take_bit_int_eq_self)
  finally show ?thesis .
qed

lemma sint_word_of_nat:
  "n < 2147483648 \<Longrightarrow> sint (word_of_nat n :: 32 word) = int n"
  by (simp add: signed_of_nat signed_take_bit_int_eq_self)


subsection \<open>Unfolding the model on concrete buffers\<close>

lemmas mem_eval = load32_def le32_def entry_key_def entry_value1_def entry_value2_def Let_def

lemmas fmt_eval = fmt_d_def dec_digits.simps

lemmas lookup_eval = keymap_get_def keymap_mp_subscript_def internal_get_def PyInt_AsLong_def
  bsearch.simps build_II_def keycmp_def

lemmas iter_eval = keymap_iterkeys_def keymap_itervalues_def keymap_iteritems_def internal_iter_def
  exhaust.simps keymapiter_next_def yield_def build_I_def build_I_II_def

lemmas init_eval = keymap_initialize_def keymap_new_def

section \<open>The unpacking functions\<close>

text \<open>
  Claim C7. \<^verbatim>\<open>_uint32_from\<close> and \<^verbatim>\<open>_int32_from\<close> raise ValueError (the buffer is too
  short) exactly when \<open>0 \<le> offset \<le> length s - 4\<close> does not hold, in particular at
  \<open>offset = length s - 3\<close>; and for every 32-bit value \<open>w\<close> whose four little-endian bytes
  stand at \<open>offset\<close> in the buffer, the first returns \<open>w\<close> read as unsigned and the second
  returns \<open>w\<close> read as signed.
\<close>

theorem read_int32_contract:
  fixes s pre post :: "byte list" and offset :: "32 word" and w :: "32 word"
  shows
    "(fsd_uint32_from s offset =
        Inl (Raised (ValueError ''_uint32_from requires a buffer of at least 4 bytes''))
      \<longleftrightarrow> \<not> (0 \<le> sint offset \<and> sint offset \<le> int (length s) - 4))
   \<and> (fsd_int32_from s offset =
        Inl (Raised (ValueError ''_int32_from requires a buffer of at least 4 bytes''))
      \<longleftrightarrow> \<not> (0 \<le> sint offset \<and> sint offset \<le> int (length s) - 4))
   \<and> (sint offset = int (length s) - 3 \<longrightarrow>
        fsd_uint32_from s offset =
          Inl (Raised (ValueError ''_uint32_from requires a buffer of at least 4 bytes''))
      \<and> fsd_int32_from s offset =
          Inl (Raised (ValueError ''_int32_from requires a buffer of at least 4 bytes'')))
   \<and> (sint offset = int (length pre) \<longrightarrow>
        fsd_uint32_from (pre @ u32_bytes w @ post) offset = Inr (PyInt (uint w))
      \<and> fsd_int32_from (pre @ u32_bytes w @ post) offset = Inr (PyInt (sint w)))"
proof (intro conjI impI)
  show "fsd_uint32_from s offset =
        Inl (Raised (ValueError ''_uint32_from requires a buffer of at least 4 bytes''))
      \<longleftrightarrow> \<not> (0 \<le> sint offset \<and> sint offset \<le> int (length s) - 4)"
    by (auto simp: fsd_uint32_from_def load32_def)
  show "fsd_int32_from s offset =
        Inl (Raised (ValueError ''_int32_from requires a buffer of at least 4 bytes''))
      \<longleftrightarrow> \<not> (0 \<le> sint offset \<and> sint offset \<le> int (length s) - 4)"
    by (auto simp: fsd_int32_from_def load32_def)
next
  assume "sint offset = int (length s) - 3"
  then show "fsd_uint32_from s offset =
          Inl (Raised (ValueError ''_uint32_from requires a buffer of at least 4 bytes''))"
    by (simp add: fsd_uint32_from_def)
next
  assume "sint offset = int (length s) - 3"
  then show "fsd_int32_from s offset =
          Inl (Raised (ValueError ''_int32_from requires a buffer of at least 4 bytes''))"
    by (simp add: fsd_int32_from_def)
next
  assume "sint offset = int (length pre)"
  then show "fsd_uint32_from (pre @ u32_bytes w @ post) offset = Inr (PyInt (uint w))"
    by (simp add: fsd_uint32_from_def load32_u32_bytes)
next
  assume "sint offset = int (length pre)"
  then show "fsd_int32_from (pre @ u32_bytes w @ post) offset = Inr (PyInt (sint w))"
    by (simp add: fsd_int32_from_def load32_u32_bytes)
qed

theorem read_int32_contract_witness:
  "fsd_uint32_from [9, 1, 0, 0, 128, 7] 1 = Inr (PyInt 2147483649)
   \<and> fsd_int32_from [9, 1, 0, 0, 128, 7] 1 = Inr (PyInt (- 2147483647))
   \<and> fsd_uint32_from [9, 1, 0, 0, 128, 7] 3 =
       Inl (Raised (ValueError ''_uint32_from requires a buffer of at least 4 bytes''))
   \<and> fsd_int32_from [9, 1, 0, 0, 128, 7] 3 =
       Inl (Raised (ValueError ''_int32_from requires a buffer of at least 4 bytes''))"
proof -
  have enc: "u32_bytes 0x80000001 = [1, 0, 0, 128]"
    by (simp add: u32_bytes_def)
  show ?thesis
    using read_int32_contract [where s = "[9, 1, 0, 0, 128, 7]" and offset = 3 and pre = "[9]"
        and w = "0x80000001" and post = "[7]"]
      read_int32_contract [where s = "[9, 1, 0, 0, 128, 7]" and offset = 1 and pre = "[9]"
        and w = "0x80000001" and post = "[7]"]
    by (simp add: enc)
qed

section \<open>Initialize\<close>

text \<open>
  Claim C2. For a non-negative offset into a buffer whose size fits an \<^verbatim>\<open>int\<close>,
  Initialize raises ValueError (the buffer is too short) exactly when the buffer has
  fewer than 4 bytes, or fewer than 4 bytes from the offset on, or when the count \<open>N\<close>
  read from the four bytes at the offset exceeds the number of bytes that follow them.
  \<open>N\<close> is compared with that number of bytes itself, not with \<open>12 * N\<close>, and the message
  of the last failure contains \<open>N\<close>. In every other case the object is set up with the
  region after the prefix and the count \<open>N\<close>.
\<close>

theorem initialize_buffer_too_short:
  assumes nonneg: "0 \<le> sint offset" and fits: "int (length data) \<le> 2147483647"
  shows
    "((\<exists>msg. keymap_initialize self data offset = Inl (Raised (ValueError msg))) \<longleftrightarrow>
        int (length data) < 4 \<or> int (length data) - sint offset < 4
        \<or> (\<exists>N. load32 data (sint offset) = Some N \<and> int (length data) - sint offset - 4 < sint N))
   \<and> (int (length data) < 4 \<or> int (length data) - sint offset < 4 \<longrightarrow>
        keymap_initialize self data offset =
          Inl (Raised (ValueError ''Initialize requires a buffer of at least 4 bytes'')))
   \<and> (\<forall>N. load32 data (sint offset) = Some N \<and> int (length data) - sint offset - 4 < sint N \<longrightarrow>
        keymap_initialize self data offset =
          Inl (Raised (ValueError
            (''Not enough data in buffer, expected '' @ fmt_d (sint N) @ '' bytes''))))
   \<and> (\<forall>N. load32 data (sint offset) = Some N \<and> sint N \<le> int (length data) - sint offset - 4 \<longrightarrow>
        keymap_initialize self data offset =
          Inr (self\<lparr>km_data := sint offset + 4, km_length := N, km_ref := data\<rparr>))"
proof -
  show ?thesis
  proof (cases "sint offset > int (length data) - 4")
    case True
    then have "keymap_initialize self data offset =
          Inl (Raised (ValueError ''Initialize requires a buffer of at least 4 bytes''))"
      by (simp add: keymap_initialize_def)
    moreover have "load32 data (sint offset) = None"
      using True by (simp add: load32_def)
    ultimately show ?thesis using True nonneg by auto
  next
    case False
    then obtain N where N: "load32 data (sint offset) = Some N"
      using nonneg by (auto simp: load32_def)
    have no: "\<not> sint offset + 4 > 2147483647" using False fits by simp
    have r: "keymap_initialize self data offset =
       (if int (length data) - (sint offset + 4) < sint N
        then Inl (Raised (ValueError
               (''Not enough data in buffer, expected '' @ fmt_d (sint N) @ '' bytes'')))
        else Inr (self\<lparr>km_data := sint offset + 4, km_length := N, km_ref := data\<rparr>))"
      using False N no by (simp add: keymap_initialize_def Let_def)
    have l: "\<not> (int (length data) < 4 \<or> int (length data) - sint offset < 4)"
      using False nonneg by auto
    show ?thesis
      using r l N by (auto simp: algebra_simps)
  qed
qed


theorem initialize_buffer_too_short_witness:
  "0 \<le> sint (0 :: 32 word)
   \<and> int (length ([100, 0, 0, 0, 1, 2, 3, 4, 5, 6, 7, 8] :: byte list)) \<le> 2147483647
   \<and> keymap_initialize keymap_new [100, 0, 0, 0, 1, 2, 3, 4, 5, 6, 7, 8] 0 =
       Inl (Raised (ValueError ''Not enough data in buffer, expected 100 bytes''))
   \<and> keymap_initialize keymap_new [2, 0, 0, 0, 7, 7] 0 =
       Inr \<lparr>km_ref = [2, 0, 0, 0, 7, 7], km_data = 4, km_length = 2\<rparr>
   \<and> keymap_initialize keymap_new [2, 0, 0, 0, 7, 7] 3 =
       Inl (Raised (ValueError ''Initialize requires a buffer of at least 4 bytes''))"
proof -
  have h: "0 \<le> sint (0 :: 32 word)"
    "int (length ([100, 0, 0, 0, 1, 2, 3, 4, 5, 6, 7, 8] :: byte list)) \<le> 2147483647"
    by simp_all
  have g: "0 \<le> sint (3 :: 32 word)" "int (length ([2, 0, 0, 0, 7, 7] :: byte list)) \<le> 2147483647"
    by simp_all
  have l1: "load32 [100, 0, 0, 0, 1, 2, 3, 4, 5, 6, 7, 8] 0 = Some 100"
    by (simp add: load32_def le32_def)
  have l2: "load32 [2, 0, 0, 0, 7, 7] 0 = Some 2"
    by (simp add: load32_def le32_def)
  have f: "fmt_d 100 = ''100''"
    by (simp add: fmt_d_def dec_digits.simps)
  have a: "keymap_initialize keymap_new [100, 0, 0, 0, 1, 2, 3, 4, 5, 6, 7, 8] 0 =
       Inl (Raised (ValueError ''Not enough data in buffer, expected 100 bytes''))"
    using initialize_buffer_too_short [OF h, of keymap_new] l1 f by simp
  have b: "keymap_initialize keymap_new [2, 0, 0, 0, 7, 7] 0 =
       Inr \<lparr>km_ref = [2, 0, 0, 0, 7, 7], km_data = 4, km_length = 2\<rparr>"
    using initialize_buffer_too_short [OF h(1), of "[2, 0, 0, 0, 7, 7]" keymap_new] l2
    by (simp add: keymap_new_def)
  have c: "keymap_initialize keymap_new [2, 0, 0, 0, 7, 7] 3 =
       Inl (Raised (ValueError ''Initialize requires a buffer of at least 4 bytes''))"
    using initialize_buffer_too_short [OF g, of keymap_new] by simp
  show ?thesis using h a b c by simp
qed

text \<open>
  Claim C9. A negative offset is not rejected. Whenever \<open>offset \<le> length data - 4\<close>
  holds for a negative offset, the guard of Initialize does not fire and the count is
  read from a position before the first byte of the buffer: the call ends in the
  out-of-bounds read, not in the ValueError.
\<close>

theorem initialize_negative_offset:
  assumes "sint offset < 0" and "sint offset \<le> int (length data) - 4"
  shows "keymap_initialize self data offset = Inl (Undefined OutOfBoundsRead)"
  using assms by (simp add: keymap_initialize_def load32_def)

theorem initialize_negative_offset_witness:
  "sint (- 4 :: 32 word) < 0 \<and> sint (- 4 :: 32 word) \<le> int (length ([] :: byte list)) - 4
   \<and> keymap_initialize keymap_new [] (- 4) = Inl (Undefined OutOfBoundsRead)"
proof -
  have h: "sint (- 4 :: 32 word) < 0" "sint (- 4 :: 32 word) \<le> int (length ([] :: byte list)) - 4"
    by simp_all
  show ?thesis
    using h initialize_negative_offset [OF h, of keymap_new] by simp
qed


text \<open>
  A buffer that holds, from the offset on, the count of the records \<open>recs\<close> and then
  their bytes is accepted, and the object refers to exactly these records.
\<close>

theorem initialize_valid_buffer:
  assumes n: "length recs < 2147483648"
    and off: "sint offset = int (length pre)"
    and fits: "int (length (pre @ u32_bytes (word_of_nat (length recs))
                  @ concat (map enc_record recs) @ post)) \<le> 2147483647"
  shows "keymap_initialize self
           (pre @ u32_bytes (word_of_nat (length recs)) @ concat (map enc_record recs) @ post) offset =
         Inr (table_of (pre @ u32_bytes (word_of_nat (length recs))) recs post)"
proof -
  let ?N = "word_of_nat (length recs) :: 32 word"
  let ?data = "pre @ u32_bytes ?N @ concat (map enc_record recs) @ post"
  have ld: "load32 ?data (sint offset) = Some ?N"
    by (simp add: off load32_u32_bytes)
  have sN: "sint ?N = int (length recs)"
    using n by (rule sint_word_of_nat)
  have g1: "\<not> sint offset > int (length ?data) - 4" by (simp add: off)
  have g2: "\<not> sint offset + 4 > 2147483647" using fits by (simp add: off)
  have g3: "\<not> int (length ?data) - (sint offset + 4) < sint ?N" by (simp add: off sN)
  have "keymap_initialize self ?data offset =
      Inr (self\<lparr>km_data := sint offset + 4, km_length := ?N, km_ref := ?data\<rparr>)"
    using g1 g2 g3 ld by (simp add: keymap_initialize_def Let_def)
  also have "self\<lparr>km_data := sint offset + 4, km_length := ?N, km_ref := ?data\<rparr> =
      table_of (pre @ u32_bytes ?N) recs post"
    by (simp add: table_of_def off)
  finally show ?thesis .
qed

section \<open>Iteration\<close>

lemma sint_table_length:
  "length recs < 2147483648 \<Longrightarrow> sint (km_length (table_of pre recs post)) = int (length recs)"
  by (simp add: table_of_def sint_word_of_nat)

lemma next_exhausted:
  assumes "sint (kmi_index self) < 0 \<or> sint (km_length (kmi_keymap self)) \<le> sint (kmi_index self)"
  shows "keymapiter_next self = (Inr None, self)"
  using assms by (auto simp: keymapiter_next_def)

lemma next_in_range:
  assumes n: "length recs < 2147483648"
    and lo: "0 \<le> sint idx" and hi: "sint idx < int (length recs)"
    and m: "m = 0 \<or> m = 1 \<or> m = 2 \<or> m = 3 \<or> m = 4"
  shows "keymapiter_next \<lparr>kmi_keymap = table_of pre recs post, kmi_index = idx, kmi_mode = m\<rparr> =
           (Inr (Some (spec_projection m (recs ! nat (sint idx)))),
            \<lparr>kmi_keymap = table_of pre recs post, kmi_index = idx + 1, kmi_mode = m\<rparr>)"
proof -
  let ?km = "table_of pre recs post"
  let ?e = "km_data ?km + 12 * sint idx"
  obtain k a b where r: "recs ! nat (sint idx) = (k, a, b)"
    by (cases "recs ! nat (sint idx)")
  have i: "nat (sint idx) < length recs" using lo hi by simp
  have e: "?e = int (length pre) + 12 * int (nat (sint idx))"
    using lo by (simp add: table_of_def)
  have ref: "km_ref ?km = pre @ concat (map enc_record recs) @ post"
    by (simp add: table_of_def)
  note f = table_fields [OF i r ref e]
  have k: "entry_key ?km ?e = Some k" and a: "entry_value1 ?km ?e = Some a"
    and b: "entry_value2 ?km ?e = Some b"
    using f by (simp_all only: entry_key_def entry_value1_def entry_value2_def)
  have rng: "\<not> (sint idx < 0 \<or> sint (km_length ?km) \<le> sint idx)"
    using lo hi n by (simp add: sint_table_length)
  from m show ?thesis
    using rng
    by (elim disjE)
      (simp_all add: keymapiter_next_def Let_def k a b r spec_projection_def yield_def
        build_I_def build_II_def build_I_II_def)
qed

lemma next_invalid_mode:
  assumes lo: "0 \<le> sint (kmi_index self)"
    and hi: "sint (kmi_index self) < sint (km_length (kmi_keymap self))"
    and m: "kmi_mode self \<notin> {0, 1, 2, 3, 4}"
  shows "keymapiter_next self =
           (Inl (Raised (RuntimeError
              (''Invalid mode for KeyMapIterator: '' @ fmt_d (sint (kmi_mode self))))),
            self\<lparr>kmi_index := kmi_index self + 1\<rparr>)"
  using assms by (simp add: keymapiter_next_def Let_def)

lemma exhaust_from:
  assumes n: "length recs < 2147483648"
    and m: "m = 0 \<or> m = 1 \<or> m = 2 \<or> m = 3 \<or> m = 4"
  shows "i \<le> length recs \<Longrightarrow>
    exhaust \<lparr>kmi_keymap = table_of pre recs post, kmi_index = word_of_nat i, kmi_mode = m\<rparr> =
      Inr (map (spec_projection m) (drop i recs))"
proof (induction "length recs - i" arbitrary: i)
  case 0
  then have "i = length recs" by simp
  then have "keymapiter_next \<lparr>kmi_keymap = table_of pre recs post, kmi_index = word_of_nat i, kmi_mode = m\<rparr>
      = (Inr None, \<lparr>kmi_keymap = table_of pre recs post, kmi_index = word_of_nat i, kmi_mode = m\<rparr>)"
    using n by (intro next_exhausted) (simp add: sint_table_length sint_word_of_nat)
  then show ?case
    using \<open>i = length recs\<close> by (simp add: exhaust.simps)
next
  case (Suc d)
  then have i: "i < length recs" by simp
  then have si: "sint (word_of_nat i :: 32 word) = int i"
    using n by (simp add: sint_word_of_nat)
  have step: "keymapiter_next \<lparr>kmi_keymap = table_of pre recs post, kmi_index = word_of_nat i, kmi_mode = m\<rparr>
      = (Inr (Some (spec_projection m (recs ! i))),
         \<lparr>kmi_keymap = table_of pre recs post, kmi_index = word_of_nat (Suc i), kmi_mode = m\<rparr>)"
    using next_in_range [OF n _ _ m, of "word_of_nat i" pre post] i si by simp
  have "exhaust \<lparr>kmi_keymap = table_of pre recs post, kmi_index = word_of_nat (Suc i), kmi_mode = m\<rparr>
      = Inr (map (spec_projection m) (drop (Suc i) recs))"
    using Suc i by (intro Suc.hyps) simp_all
  moreover have "drop i recs = recs ! i # drop (Suc i) recs"
    using i by (simp add: Cons_nth_drop_Suc)
  ultimately show ?case
    using step by (subst exhaust.simps) simp
qed


text \<open>
  Claim C5. On a key map whose region holds the records \<open>recs\<close>, Next with an index
  \<open>0 \<le> idx < length recs\<close> returns the projection of record number \<open>idx\<close> that the mode
  selects and leaves the iterator with the index \<open>idx + 1\<close> (which is one more, without
  wrap-around); with a negative index or one that has reached the count it signals the
  end and leaves the iterator as it was. Driving the iterator from index 0 therefore
  yields the projections of all records in the order of the buffer. The projections are:
  mode 0 the key, mode 1 the pair of values, mode 2 the key with the pair of values,
  mode 3 the first value, mode 4 the key with the first value.
\<close>

theorem next_reads_record_and_advances:
  assumes n: "length recs < 2147483648"
  shows
    "(0 \<le> sint idx \<and> sint idx < int (length recs) \<and> m \<in> {0, 1, 2, 3, 4} \<longrightarrow>
        keymapiter_next \<lparr>kmi_keymap = table_of pre recs post, kmi_index = idx, kmi_mode = m\<rparr> =
          (Inr (Some (spec_projection m (recs ! nat (sint idx)))),
           \<lparr>kmi_keymap = table_of pre recs post, kmi_index = idx + 1, kmi_mode = m\<rparr>)
      \<and> sint (idx + 1) = sint idx + 1)
   \<and> (sint idx < 0 \<or> int (length recs) \<le> sint idx \<longrightarrow>
        keymapiter_next \<lparr>kmi_keymap = table_of pre recs post, kmi_index = idx, kmi_mode = m\<rparr> =
          (Inr None, \<lparr>kmi_keymap = table_of pre recs post, kmi_index = idx, kmi_mode = m\<rparr>))
   \<and> (m \<in> {0, 1, 2, 3, 4} \<longrightarrow>
        exhaust (internal_iter (table_of pre recs post) m) = Inr (map (spec_projection m) recs))
   \<and> spec_projection 0 (key, value1, value2) = PyInt (uint key)
   \<and> spec_projection 1 (key, value1, value2) = PyTuple [PyInt (uint value1), PyInt (uint value2)]
   \<and> spec_projection 2 (key, value1, value2) =
        PyTuple [PyInt (uint key), PyTuple [PyInt (uint value1), PyInt (uint value2)]]
   \<and> spec_projection 3 (key, value1, value2) = PyInt (uint value1)
   \<and> spec_projection 4 (key, value1, value2) = PyTuple [PyInt (uint key), PyInt (uint value1)]"
proof (intro conjI impI)
  assume a: "0 \<le> sint idx \<and> sint idx < int (length recs) \<and> m \<in> {0, 1, 2, 3, 4}"
  then show "keymapiter_next \<lparr>kmi_keymap = table_of pre recs post, kmi_index = idx, kmi_mode = m\<rparr> =
          (Inr (Some (spec_projection m (recs ! nat (sint idx)))),
           \<lparr>kmi_keymap = table_of pre recs post, kmi_index = idx + 1, kmi_mode = m\<rparr>)"
    using n by (intro next_in_range) auto
  have "sint idx < sint (km_length (table_of pre recs post))"
    using a n by (simp add: sint_table_length)
  then show "sint (idx + 1) = sint idx + 1"
    by (rule sint_succ)
next
  assume "sint idx < 0 \<or> int (length recs) \<le> sint idx"
  then show "keymapiter_next \<lparr>kmi_keymap = table_of pre recs post, kmi_index = idx, kmi_mode = m\<rparr> =
          (Inr None, \<lparr>kmi_keymap = table_of pre recs post, kmi_index = idx, kmi_mode = m\<rparr>)"
    using n by (intro next_exhausted) (simp add: sint_table_length)
next
  assume "m \<in> {0, 1, 2, 3, 4}"
  then have m: "m = 0 \<or> m = 1 \<or> m = 2 \<or> m = 3 \<or> m = 4" by auto
  show "exhaust (internal_iter (table_of pre recs post) m) = Inr (map (spec_projection m) recs)"
    using exhaust_from [OF n m, of 0 pre post] by (simp add: internal_iter_def)
qed (simp_all add: spec_projection_def)

theorem next_reads_record_and_advances_witness:
  "length [(1, 10, 20), (5, 30, 40) :: entry] < 2147483648
   \<and> keymapiter_next
        \<lparr>kmi_keymap = \<lparr>km_ref = [2, 0, 0, 0, 1, 0, 0, 0, 10, 0, 0, 0, 20, 0, 0, 0,
                                  5, 0, 0, 0, 30, 0, 0, 0, 40, 0, 0, 0],
                        km_data = 4, km_length = 2\<rparr>,
         kmi_index = 1, kmi_mode = 2\<rparr> =
       (Inr (Some (PyTuple [PyInt 5, PyTuple [PyInt 30, PyInt 40]])),
        \<lparr>kmi_keymap = \<lparr>km_ref = [2, 0, 0, 0, 1, 0, 0, 0, 10, 0, 0, 0, 20, 0, 0, 0,
                                  5, 0, 0, 0, 30, 0, 0, 0, 40, 0, 0, 0],
                        km_data = 4, km_length = 2\<rparr>,
         kmi_index = 2, kmi_mode = 2\<rparr>)
   \<and> exhaust (keymap_iterkeys \<lparr>km_ref = [2, 0, 0, 0, 1, 0, 0, 0, 10, 0, 0, 0, 20, 0, 0, 0,
                                  5, 0, 0, 0, 30, 0, 0, 0, 40, 0, 0, 0],
                        km_data = 4, km_length = 2\<rparr>) = Inr [PyInt 1, PyInt 5]
   \<and> exhaust (keymap_itervalues \<lparr>km_ref = [2, 0, 0, 0, 1, 0, 0, 0, 10, 0, 0, 0, 20, 0, 0, 0,
                                  5, 0, 0, 0, 30, 0, 0, 0, 40, 0, 0, 0],
                        km_data = 4, km_length = 2\<rparr>) =
       Inr [PyTuple [PyInt 10, PyInt 20], PyTuple [PyInt 30, PyInt 40]]"
proof -
  have h: "length [(1, 10, 20), (5, 30, 40) :: entry] < 2147483648" by simp
  have t: "table_of [2, 0, 0, 0] [(1, 10, 20), (5, 30, 40)] [] =
      \<lparr>km_ref = [2, 0, 0, 0, 1, 0, 0, 0, 10, 0, 0, 0, 20, 0, 0, 0,
                 5, 0, 0, 0, 30, 0, 0, 0, 40, 0, 0, 0],
        km_data = 4, km_length = 2\<rparr>"
    by (simp add: table_of_def enc_record_def u32_bytes_def)
  show ?thesis
    using h
      next_reads_record_and_advances [OF h, of 1 2 "[2, 0, 0, 0]" "[]"]
      next_reads_record_and_advances [OF h, of 0 0 "[2, 0, 0, 0]" "[]"]
      next_reads_record_and_advances [OF h, of 0 1 "[2, 0, 0, 0]" "[]"]
    by (simp add: t spec_projection_def keymap_iterkeys_def keymap_itervalues_def)
qed

text \<open>
  On a buffer that holds the count of the records \<open>recs\<close> followed by their bytes,
  Initialize succeeds, Length is the number of records, and an iterator in each of the
  five modes yields as many items.
\<close>

theorem valid_buffer_length_and_items:
  assumes n: "length recs < 2147483648"
    and off: "sint offset = int (length pre)"
    and fits: "int (length (pre @ u32_bytes (word_of_nat (length recs))
                  @ concat (map enc_record recs) @ post)) \<le> 2147483647"
    and m: "m \<in> {0, 1, 2, 3, 4}"
  shows "\<exists>t items.
           keymap_initialize self
             (pre @ u32_bytes (word_of_nat (length recs)) @ concat (map enc_record recs) @ post)
             offset = Inr t
         \<and> sint (keymap_obj_length t) = int (length recs)
         \<and> exhaust (internal_iter t m) = Inr items
         \<and> length items = length recs"
proof -
  let ?t = "table_of (pre @ u32_bytes (word_of_nat (length recs))) recs post"
  have m': "m = 0 \<or> m = 1 \<or> m = 2 \<or> m = 3 \<or> m = 4" using m by auto
  have "keymap_initialize self
      (pre @ u32_bytes (word_of_nat (length recs)) @ concat (map enc_record recs) @ post)
      offset = Inr ?t"
    by (rule initialize_valid_buffer [OF n off fits])
  moreover have "sint (keymap_obj_length ?t) = int (length recs)"
    using n by (simp add: keymap_obj_length_def sint_table_length)
  moreover have "exhaust (internal_iter ?t m) = Inr (map (spec_projection m) recs)"
    using exhaust_from [OF n m', of 0 "pre @ u32_bytes (word_of_nat (length recs))" post]
    by (simp add: internal_iter_def)
  ultimately show ?thesis by simp
qed

text \<open>
  Claim C3 on the code. Initialize accepts the five bytes \<open>01 00 00 00 AA\<close>: the count is
  1 and one byte follows the prefix. Length is 1, but the region holds no record, and
  the first Next of an iterator in each of the five modes reads past the end of the
  buffer. It also accepts \<open>FF FF FF FF\<close>, where Length is \<open>-1\<close> and an iterator yields no
  item.
\<close>

theorem count_not_checked_against_records:
  "keymap_initialize keymap_new [1, 0, 0, 0, 170] 0 =
     Inr \<lparr>km_ref = [1, 0, 0, 0, 170], km_data = 4, km_length = 1\<rparr>
   \<and> keymap_obj_length \<lparr>km_ref = [1, 0, 0, 0, 170], km_data = 4, km_length = 1\<rparr> = 1
   \<and> exhaust (keymap_iterkeys \<lparr>km_ref = [1, 0, 0, 0, 170], km_data = 4, km_length = 1\<rparr>) =
       Inl (Undefined OutOfBoundsRead)
   \<and> exhaust (keymap_itervalues \<lparr>km_ref = [1, 0, 0, 0, 170], km_data = 4, km_length = 1\<rparr>) =
       Inl (Undefined OutOfBoundsRead)
   \<and> exhaust (keymap_iteritems \<lparr>km_ref = [1, 0, 0, 0, 170], km_data = 4, km_length = 1\<rparr>) =
       Inl (Undefined OutOfBoundsRead)
   \<and> exhaust (internal_iter \<lparr>km_ref = [1, 0, 0, 0, 170], km_data = 4, km_length = 1\<rparr> 3) =
       Inl (Undefined OutOfBoundsRead)
   \<and> exhaust (internal_iter \<lparr>km_ref = [1, 0, 0, 0, 170], km_data = 4, km_length = 1\<rparr> 4) =
       Inl (Undefined OutOfBoundsRead)
   \<and> keymap_initialize keymap_new [255, 255, 255, 255] 0 =
     Inr \<lparr>km_ref = [255, 255, 255, 255], km_data = 4, km_length = - 1\<rparr>
   \<and> sint (keymap_obj_length \<lparr>km_ref = [255, 255, 255, 255], km_data = 4, km_length = - 1\<rparr>) = - 1
   \<and> exhaust (keymap_iterkeys \<lparr>km_ref = [255, 255, 255, 255], km_data = 4, km_length = - 1\<rparr>) =
       Inr []"
  by (simp add: init_eval iter_eval mem_eval build_II_def keymap_obj_length_def)

text \<open>
  Claim C6, as amended. \<^verbatim>\<open>_iterspecial\<close> builds an iterator for any integer, with the
  index 0 and the mode cut down to an \<^verbatim>\<open>int\<close>; it cannot fail. On an iterator whose mode
  is none of 0..4, Next raises RuntimeError naming the mode only while the index is in
  \<open>[0, count)\<close>, and that call advances the index by one; with the index out of that range
  Next signals the end of the iteration.
\<close>

theorem invalid_mode_next:
  assumes bad: "kmi_mode self \<notin> {0, 1, 2, 3, 4}"
  shows
    "(0 \<le> sint (kmi_index self) \<and> sint (kmi_index self) < sint (km_length (kmi_keymap self)) \<longrightarrow>
        keymapiter_next self =
          (Inl (Raised (RuntimeError
             (''Invalid mode for KeyMapIterator: '' @ fmt_d (sint (kmi_mode self))))),
           self\<lparr>kmi_index := kmi_index self + 1\<rparr>)
      \<and> sint (kmi_index self + 1) = sint (kmi_index self) + 1)
   \<and> (sint (kmi_index self) < 0 \<or> sint (km_length (kmi_keymap self)) \<le> sint (kmi_index self) \<longrightarrow>
        keymapiter_next self = (Inr None, self))
   \<and> keymap_iterspecial lw km pymode =
        \<lparr>kmi_keymap = km, kmi_index = 0, kmi_mode = word_of_int (PyInt_AsLong lw pymode)\<rparr>"
proof (intro conjI impI)
  assume a: "0 \<le> sint (kmi_index self) \<and> sint (kmi_index self) < sint (km_length (kmi_keymap self))"
  then show "keymapiter_next self =
          (Inl (Raised (RuntimeError
             (''Invalid mode for KeyMapIterator: '' @ fmt_d (sint (kmi_mode self))))),
           self\<lparr>kmi_index := kmi_index self + 1\<rparr>)"
    using bad by (intro next_invalid_mode) simp_all
  from a show "sint (kmi_index self + 1) = sint (kmi_index self) + 1"
    by (intro sint_succ [of _ "km_length (kmi_keymap self)"]) simp
next
  assume "sint (kmi_index self) < 0 \<or> sint (km_length (kmi_keymap self)) \<le> sint (kmi_index self)"
  then show "keymapiter_next self = (Inr None, self)"
    by (rule next_exhausted)
next
  show "keymap_iterspecial lw km pymode =
        \<lparr>kmi_keymap = km, kmi_index = 0, kmi_mode = word_of_int (PyInt_AsLong lw pymode)\<rparr>"
    by (simp add: keymap_iterspecial_def internal_iter_def)
qed

theorem invalid_mode_next_witness:
  "kmi_mode \<lparr>kmi_keymap = \<lparr>km_ref = [1, 0, 0, 0, 10, 0, 0, 0, 20, 0, 0, 0], km_data = 0,
                             km_length = 1\<rparr>,
             kmi_index = 0, kmi_mode = 7\<rparr> \<notin> {0, 1, 2, 3, 4}
   \<and> keymapiter_next \<lparr>kmi_keymap = \<lparr>km_ref = [1, 0, 0, 0, 10, 0, 0, 0, 20, 0, 0, 0], km_data = 0,
                             km_length = 1\<rparr>,
             kmi_index = 0, kmi_mode = 7\<rparr> =
       (Inl (Raised (RuntimeError ''Invalid mode for KeyMapIterator: 7'')),
        \<lparr>kmi_keymap = \<lparr>km_ref = [1, 0, 0, 0, 10, 0, 0, 0, 20, 0, 0, 0], km_data = 0,
                             km_length = 1\<rparr>,
             kmi_index = 1, kmi_mode = 7\<rparr>)"
proof -
  let ?it = "\<lparr>kmi_keymap = \<lparr>km_ref = [1, 0, 0, 0, 10, 0, 0, 0, 20, 0, 0, 0], km_data = 0,
                             km_length = 1\<rparr>,
             kmi_index = 0, kmi_mode = (7 :: 32 word)\<rparr>"
  have h: "kmi_mode ?it \<notin> {0, 1, 2, 3, 4}" by simp
  have f: "fmt_d 7 = ''7''"
    by (simp add: fmt_d_def dec_digits.simps)
  show ?thesis
    using h invalid_mode_next [OF h] by (simp add: f)
qed

text \<open>
  Claim C6 as stated fails. On a key map with one record and the mode 7, the first Next
  raises RuntimeError and moves the index from 0 to 1; the second Next then signals
  the end of the iteration instead of raising.
\<close>

theorem invalid_mode_counterexample:
  "kmi_index (keymap_iterspecial Long64
       \<lparr>km_ref = [1, 0, 0, 0, 10, 0, 0, 0, 20, 0, 0, 0], km_data = 0, km_length = 1\<rparr> 7) = 0
   \<and> keymapiter_next (keymap_iterspecial Long64
       \<lparr>km_ref = [1, 0, 0, 0, 10, 0, 0, 0, 20, 0, 0, 0], km_data = 0, km_length = 1\<rparr> 7) =
       (Inl (Raised (RuntimeError ''Invalid mode for KeyMapIterator: 7'')),
        \<lparr>kmi_keymap = \<lparr>km_ref = [1, 0, 0, 0, 10, 0, 0, 0, 20, 0, 0, 0], km_data = 0,
                        km_length = 1\<rparr>,
         kmi_index = 1, kmi_mode = 7\<rparr>)
   \<and> keymapiter_next
        \<lparr>kmi_keymap = \<lparr>km_ref = [1, 0, 0, 0, 10, 0, 0, 0, 20, 0, 0, 0], km_data = 0,
                        km_length = 1\<rparr>,
         kmi_index = 1, kmi_mode = 7\<rparr> =
       (Inr None,
        \<lparr>kmi_keymap = \<lparr>km_ref = [1, 0, 0, 0, 10, 0, 0, 0, 20, 0, 0, 0], km_data = 0,
                        km_length = 1\<rparr>,
         kmi_index = 1, kmi_mode = 7\<rparr>)"
  by (simp add: keymap_iterspecial_def internal_iter_def PyInt_AsLong_def keymapiter_next_def
      Let_def fmt_d_def dec_digits.simps)

section \<open>Lookup\<close>

lemma bsearch_fault:
  "bsearch km k base w l u = Inl f \<Longrightarrow> f = Undefined OutOfBoundsRead"
proof (induction km k base w l u rule: bsearch.induct)
  case (1 km k base w l u)
  show ?case
  proof (cases "l < u")
    case False
    with "1.prems" show ?thesis by (simp add: bsearch.simps)
  next
    case True
    show ?thesis
    proof (cases "entry_key km (base + int ((l + u) div 2) * w)")
      case None
      with True "1.prems" show ?thesis
        by (subst (asm) bsearch.simps) (simp add: Let_def)
    next
      case (Some b)
      with True "1.prems" "1.IH" show ?thesis
        by (subst (asm) bsearch.simps) (auto simp: Let_def split: if_splits)
    qed
  qed
qed

lemma internal_get_cases:
  "internal_get lw self (PyInt v) raise = Inl f \<Longrightarrow>
     f = Undefined OutOfBoundsRead \<or> f = Undefined NegativeCount
     \<or> (raise \<noteq> 0 \<and> f = Raised (KeyError (fmt_d (sint (word_of_int (PyInt_AsLong lw v) :: 32 word)))))"
  by (auto simp: internal_get_def Let_def split: if_splits sum.splits option.splits
      dest: bsearch_fault)


lemma internal_get_result:
  assumes "internal_get lw self key raise = Inr r"
  shows "(raise = 0 \<and> r = PyNone)
     \<or> (\<exists>(a :: 32 word) (b :: 32 word). r = PyTuple [PyInt (uint a), PyInt (uint b)])"
proof (cases key)
  case (PyInt v)
  with assms show ?thesis
    by (auto simp: internal_get_def Let_def build_II_def
        split: if_splits sum.splits option.splits)
qed (use assms in \<open>simp_all add: internal_get_def\<close>)

lemma internal_get_raise:
  "internal_get lw self key 1 =
     (case internal_get lw self key 0 of
        Inr PyNone \<Rightarrow> (case key of PyInt v \<Rightarrow>
           Inl (Raised (KeyError (fmt_d (sint (word_of_int (PyInt_AsLong lw v) :: 32 word))))) | _ \<Rightarrow> Inr PyNone)
      | r \<Rightarrow> r)"
  by (cases key)
    (auto simp: internal_get_def Let_def build_II_def
      split: if_splits sum.splits option.splits)

subsection \<open>The search on a region of records\<close>

lemma entry_fields_table_of:
  assumes i: "i < length recs" and r: "recs ! i = (k, a, b)"
  shows "entry_key (table_of pre recs post) (int (length pre) + int i * 12) = Some k"
    and "entry_value1 (table_of pre recs post) (int (length pre) + int i * 12) = Some a"
    and "entry_value2 (table_of pre recs post) (int (length pre) + int i * 12) = Some b"
proof -
  have ref: "km_ref (table_of pre recs post) = pre @ concat (map enc_record recs) @ post"
    by (simp add: table_of_def)
  have e: "int (length pre) + int i * 12 = int (length pre) + 12 * int i" by simp
  note f = table_fields [OF i r ref e]
  show "entry_key (table_of pre recs post) (int (length pre) + int i * 12) = Some k"
    and "entry_value1 (table_of pre recs post) (int (length pre) + int i * 12) = Some a"
    and "entry_value2 (table_of pre recs post) (int (length pre) + int i * 12) = Some b"
    using f by (simp_all only: entry_key_def entry_value1_def entry_value2_def)
qed

lemma keycmp_eq_0: "keycmp a b = 0 \<longleftrightarrow> a = b"
  by (simp add: keycmp_def signed_eq_0_iff)


lemma keycmp_small:
  fixes a b :: "32 word"
  assumes "a < 0x80000000" and "b < 0x80000000"
  shows "keycmp a b = uint a - uint b"
proof -
  have ua: "uint a < 2147483648" using assms(1) by (simp add: word_less_def)
  have ub: "uint b < 2147483648" using assms(2) by (simp add: word_less_def)
  have la: "- 2147483648 \<le> uint a"
    using uint_ge_0 [of a] by linarith
  have lb: "- 2147483648 \<le> uint b"
    using uint_ge_0 [of b] by linarith
  have sa: "sint a = uint a"
    using ua la by (simp add: sint_uint signed_take_bit_int_eq_self)
  have sb: "sint b = uint b"
    using ub lb by (simp add: sint_uint signed_take_bit_int_eq_self)
  have "sint (a - b) = signed_take_bit 31 (sint a - sint b)"
    by (simp add: sint_word_ariths)
  also have "\<dots> = uint a - uint b"
  proof -
    have "- 2147483648 \<le> uint a - uint b" "uint a - uint b < 2147483648"
      using ua ub uint_ge_0 [of a] uint_ge_0 [of b] by linarith+
    then show ?thesis
      by (simp add: sa sb signed_take_bit_int_eq_self)
  qed
  finally show ?thesis by (simp add: keycmp_def)
qed


lemma bsearch_found:
  assumes sorted: "sorted_wrt (<) (map fst recs)"
    and small: "\<forall>r \<in> set recs. fst r < 0x80000000"
    and i: "i < length recs"
  shows "l \<le> i \<Longrightarrow> i < u \<Longrightarrow> u \<le> length recs \<Longrightarrow>
    bsearch (table_of pre recs post) (fst (recs ! i)) (int (length pre)) 12 l u =
      Inr (Some (int (length pre) + int i * 12))"
proof (induction "u - l" arbitrary: l u rule: less_induct)
  case less
  let ?k = "fst (recs ! i)"
  let ?idx = "(l + u) div 2"
  have lu: "l < u" using less.prems by simp
  have idx: "l \<le> ?idx" "?idx < u" using lu by auto
  then have in_tab: "?idx < length recs" using less.prems by simp
  obtain b v1 v2 where r: "recs ! ?idx = (b, v1, v2)"
    by (cases "recs ! ?idx")
  have key: "entry_key (table_of pre recs post) (int (length pre) + int ?idx * 12) = Some b"
    by (rule entry_fields_table_of [OF in_tab r])
  have ks: "?k < 0x80000000" using small i by simp
  have bs: "b < 0x80000000" using small in_tab r by (metis fst_conv nth_mem)
  have cmp: "keycmp ?k b = uint ?k - uint b"
    by (rule keycmp_small [OF ks bs])
  have mono: "x < y \<Longrightarrow> y < length recs \<Longrightarrow> fst (recs ! x) < fst (recs ! y)" for x y
    using sorted_wrt_nth_less [OF sorted, of x y] by simp
  consider (lt) "i < ?idx" | (eq) "i = ?idx" | (gt) "?idx < i" by linarith
  then show ?case
  proof cases
    case lt
    then have "?k < b" using mono [of i ?idx] in_tab r by simp
    then have neg: "keycmp ?k b < 0" by (simp add: cmp word_less_def)
    have "bsearch (table_of pre recs post) ?k (int (length pre)) 12 l ?idx =
        Inr (Some (int (length pre) + int i * 12))"
      using lt idx less.prems by (intro less.hyps) auto
    then show ?thesis
      using lu key neg by (subst bsearch.simps) (simp add: Let_def)
  next
    case eq
    then have "keycmp ?k b = 0" using r by (simp add: keycmp_eq_0)
    then show ?thesis
      using lu key eq by (subst bsearch.simps) (simp add: Let_def)
  next
    case gt
    then have "b < ?k" using mono [of ?idx i] i r by simp
    then have pos: "keycmp ?k b > 0" by (simp add: cmp word_less_def)
    have "bsearch (table_of pre recs post) ?k (int (length pre)) 12 (?idx + 1) u =
        Inr (Some (int (length pre) + int i * 12))"
      using gt idx less.prems by (intro less.hyps) auto
    then show ?thesis
      using lu key pos by (subst bsearch.simps) (simp add: Let_def)
  qed
qed


lemma PyInt_AsLong_small: "0 \<le> v \<Longrightarrow> v < 2147483648 \<Longrightarrow> PyInt_AsLong lw v = v"
  by (cases lw) (simp_all add: PyInt_AsLong_def)





text \<open>
  Where all keys are below \<open>2^31\<close> the subtraction in \<^verbatim>\<open>_keycmp\<close> does not wrap, and on
  strictly ascending keys both lookups return the values stored with the key.
\<close>

theorem lookup_present_small_sorted:
  assumes n: "length recs < 2147483648"
    and sorted: "sorted_wrt (<) (map fst recs)"
    and small: "\<forall>r \<in> set recs. fst r < 0x80000000"
    and i: "i < length recs" and r: "recs ! i = (k, a, b)"
  shows "keymap_get lw (table_of pre recs post) (PyInt (uint k)) =
           Inr (PyTuple [PyInt (uint a), PyInt (uint b)])"
    and "keymap_mp_subscript lw (table_of pre recs post) (PyInt (uint k)) =
           Inr (PyTuple [PyInt (uint a), PyInt (uint b)])"
proof -
  have ks: "k < 0x80000000" using small i r by (metis fst_conv nth_mem)
  then have "uint k < 2147483648" by (simp add: word_less_def)
  then have conv: "(word_of_int (PyInt_AsLong lw (uint k)) :: 32 word) = k"
    by (simp add: PyInt_AsLong_small)
  have len: "sint (km_length (table_of pre recs post)) = int (length recs)"
    using n by (rule sint_table_length)
  have found: "bsearch (table_of pre recs post) k (km_data (table_of pre recs post)) 12 0
      (length recs) = Inr (Some (int (length pre) + int i * 12))"
    using bsearch_found [OF sorted small i, of 0 "length recs" pre post] i r
    by (simp add: table_of_def)
  note f = entry_fields_table_of [OF i r, of pre post]
  show "keymap_get lw (table_of pre recs post) (PyInt (uint k)) =
           Inr (PyTuple [PyInt (uint a), PyInt (uint b)])"
    by (simp add: keymap_get_def internal_get_def conv len found f build_II_def)
  show "keymap_mp_subscript lw (table_of pre recs post) (PyInt (uint k)) =
           Inr (PyTuple [PyInt (uint a), PyInt (uint b)])"
    by (simp add: keymap_mp_subscript_def internal_get_def conv len found f build_II_def)
qed



subsection \<open>Soft and strict lookup\<close>

text \<open>
  The two lookups are one search with a flag. The strict lookup returns what the soft
  lookup returns unless the soft lookup returns \<open>None\<close>: one of them returns a pair of
  values exactly when the other returns the identical pair. The soft lookup returns
  \<open>None\<close> exactly when the strict lookup raises KeyError, and what a lookup returns is
  \<open>None\<close> or a pair.
\<close>

theorem lookups_agree_except_on_miss:
  "(keymap_get lw self key \<noteq> Inr PyNone \<longrightarrow>
      keymap_mp_subscript lw self key = keymap_get lw self key)
   \<and> (\<forall>(a :: 32 word) (b :: 32 word).
        keymap_get lw self key = Inr (PyTuple [PyInt (uint a), PyInt (uint b)]) \<longleftrightarrow>
        keymap_mp_subscript lw self key = Inr (PyTuple [PyInt (uint a), PyInt (uint b)]))
   \<and> (keymap_get lw self key = Inr PyNone \<longleftrightarrow>
        (\<exists>msg. keymap_mp_subscript lw self key = Inl (Raised (KeyError msg))))
   \<and> (\<forall>r. keymap_get lw self key = Inr r \<longrightarrow>
        r = PyNone \<or> (\<exists>(a :: 32 word) (b :: 32 word). r = PyTuple [PyInt (uint a), PyInt (uint b)]))"
proof -
  have raise: "internal_get lw self key 1 =
     (case internal_get lw self key 0 of
        Inr PyNone \<Rightarrow> (case key of PyInt v \<Rightarrow>
           Inl (Raised (KeyError (fmt_d (sint (word_of_int (PyInt_AsLong lw v) :: 32 word)))))
           | _ \<Rightarrow> Inr PyNone)
      | r \<Rightarrow> r)"
    by (rule internal_get_raise)
  have none_int: "internal_get lw self key 0 = Inr PyNone \<Longrightarrow> \<exists>v. key = PyInt v"
    by (cases key) (simp_all add: internal_get_def)
  have no_key_error: "internal_get lw self key 0 \<noteq> Inl (Raised (KeyError msg))" for msg
  proof (cases key)
    case (PyInt v)
    then show ?thesis using internal_get_cases [of lw self v 0] by auto
  qed (simp_all add: internal_get_def)
  have a: "keymap_get lw self key \<noteq> Inr PyNone \<longrightarrow>
      keymap_mp_subscript lw self key = keymap_get lw self key"
    unfolding keymap_get_def keymap_mp_subscript_def raise
    by (auto split: sum.splits pyobj.splits)
  have c: "keymap_get lw self key = Inr PyNone \<longleftrightarrow>
        (\<exists>msg. keymap_mp_subscript lw self key = Inl (Raised (KeyError msg)))"
  proof
    assume g: "keymap_get lw self key = Inr PyNone"
    then obtain v where "key = PyInt v"
      using none_int by (auto simp: keymap_get_def)
    with g show "\<exists>msg. keymap_mp_subscript lw self key = Inl (Raised (KeyError msg))"
      unfolding keymap_get_def keymap_mp_subscript_def raise by simp
  next
    assume "\<exists>msg. keymap_mp_subscript lw self key = Inl (Raised (KeyError msg))"
    then obtain msg where s: "internal_get lw self key 1 = Inl (Raised (KeyError msg))"
      by (auto simp: keymap_mp_subscript_def)
    show "keymap_get lw self key = Inr PyNone"
    proof (rule ccontr)
      assume "keymap_get lw self key \<noteq> Inr PyNone"
      with a s have "internal_get lw self key 0 = Inl (Raised (KeyError msg))"
        by (simp add: keymap_get_def keymap_mp_subscript_def)
      with no_key_error [of msg] show False by simp
    qed
  qed
  have b: "keymap_get lw self key = Inr (PyTuple [PyInt (uint a), PyInt (uint b)]) \<longleftrightarrow>
        keymap_mp_subscript lw self key = Inr (PyTuple [PyInt (uint a), PyInt (uint b)])"
    for a b :: "32 word"
    using a c by (cases "keymap_get lw self key = Inr PyNone") auto
  have d: "keymap_get lw self key = Inr r \<longrightarrow>
        r = PyNone \<or> (\<exists>(a :: 32 word) (b :: 32 word). r = PyTuple [PyInt (uint a), PyInt (uint b)])"
    for r
    using internal_get_result [of lw self key 0 r] by (auto simp: keymap_get_def)
  from a b c d show ?thesis by blast
qed

theorem lookups_agree_on_scenario:
  "keymap_mp_subscript Long64
       \<lparr>km_ref = [2, 0, 0, 0, 1, 0, 0, 0, 10, 0, 0, 0, 20, 0, 0, 0,
                  5, 0, 0, 0, 30, 0, 0, 0, 40, 0, 0, 0],
        km_data = 4, km_length = 2\<rparr> (PyInt 5) = Inr (PyTuple [PyInt 30, PyInt 40])
   \<and> (\<exists>msg. keymap_mp_subscript Long64
       \<lparr>km_ref = [2, 0, 0, 0, 1, 0, 0, 0, 10, 0, 0, 0, 20, 0, 0, 0,
                  5, 0, 0, 0, 30, 0, 0, 0, 40, 0, 0, 0],
        km_data = 4, km_length = 2\<rparr> (PyInt 3) = Inl (Raised (KeyError msg)))"
proof -
  let ?t = "\<lparr>km_ref = [2, 0, 0, 0, 1, 0, 0, 0, 10, 0, 0, 0, 20, 0, 0, 0,
                  5, 0, 0, 0, 30, 0, 0, 0, 40, 0, 0, 0 :: byte],
        km_data = 4, km_length = 2\<rparr>"
  have hit: "keymap_get Long64 ?t (PyInt 5) = Inr (PyTuple [PyInt 30, PyInt 40])"
    by (simp add: keymap_get_def internal_get_def PyInt_AsLong_def bsearch.simps build_II_def
        keycmp_def mem_eval)
  have miss: "keymap_get Long64 ?t (PyInt 3) = Inr PyNone"
    by (simp add: keymap_get_def internal_get_def PyInt_AsLong_def bsearch.simps build_II_def
        keycmp_def mem_eval)
  show ?thesis
    using lookups_agree_except_on_miss [of Long64 ?t "PyInt 5"]
      lookups_agree_except_on_miss [of Long64 ?t "PyInt 3"] hit miss
    by simp
qed




text \<open>
  Claim C1 on the code. The buffer holds the count 3 and the records \<open>(1, 10, 20)\<close>,
  \<open>(2147483650, 30, 40)\<close>, \<open>(2147483651, 50, 60)\<close>, sorted by key. Initialize accepts it
  and an iterator lists the three records, but \<open>Get(1)\<close> returns \<open>None\<close>: the difference
  \<open>1 - 2147483650\<close> of unsigned keys, read as an \<^verbatim>\<open>int\<close>, is positive, and the search
  continues to the right of the middle record.
\<close>

theorem sorted_key_not_found:
  "keymap_initialize keymap_new
     [3, 0, 0, 0, 1, 0, 0, 0, 10, 0, 0, 0, 20, 0, 0, 0, 2, 0, 0, 128, 30, 0, 0, 0, 40, 0, 0, 0,
      3, 0, 0, 128, 50, 0, 0, 0, 60, 0, 0, 0] 0 =
     Inr \<lparr>km_ref = [3, 0, 0, 0, 1, 0, 0, 0, 10, 0, 0, 0, 20, 0, 0, 0, 2, 0, 0, 128, 30, 0, 0, 0,
                    40, 0, 0, 0, 3, 0, 0, 128, 50, 0, 0, 0, 60, 0, 0, 0],
          km_data = 4, km_length = 3\<rparr>
   \<and> exhaust (keymap_iteritems
       \<lparr>km_ref = [3, 0, 0, 0, 1, 0, 0, 0, 10, 0, 0, 0, 20, 0, 0, 0, 2, 0, 0, 128, 30, 0, 0, 0,
                  40, 0, 0, 0, 3, 0, 0, 128, 50, 0, 0, 0, 60, 0, 0, 0],
        km_data = 4, km_length = 3\<rparr>) =
     Inr [PyTuple [PyInt 1, PyTuple [PyInt 10, PyInt 20]],
          PyTuple [PyInt 2147483650, PyTuple [PyInt 30, PyInt 40]],
          PyTuple [PyInt 2147483651, PyTuple [PyInt 50, PyInt 60]]]
   \<and> keymap_get Long64
       \<lparr>km_ref = [3, 0, 0, 0, 1, 0, 0, 0, 10, 0, 0, 0, 20, 0, 0, 0, 2, 0, 0, 128, 30, 0, 0, 0,
                  40, 0, 0, 0, 3, 0, 0, 128, 50, 0, 0, 0, 60, 0, 0, 0],
        km_data = 4, km_length = 3\<rparr> (PyInt 1) = Inr PyNone
   \<and> keymap_get Long32
       \<lparr>km_ref = [3, 0, 0, 0, 1, 0, 0, 0, 10, 0, 0, 0, 20, 0, 0, 0, 2, 0, 0, 128, 30, 0, 0, 0,
                  40, 0, 0, 0, 3, 0, 0, 128, 50, 0, 0, 0, 60, 0, 0, 0],
        km_data = 4, km_length = 3\<rparr> (PyInt 1) = Inr PyNone"
  by (simp add: init_eval lookup_eval iter_eval mem_eval)

text \<open>
  Claim C10 on the code. In the buffer with the count 3 and the records \<open>(1, 10, 20)\<close>,
  \<open>(2147483650, 30, 40)\<close>, \<open>(2147483651, 50, 60)\<close>, sorted by key, the key 1 is present:
  Initialize accepts the buffer and the first item of an iterator is \<open>(1, (10, 20))\<close>.
  Yet neither lookup returns the pair \<open>(10, 20)\<close> for the key 1: the soft lookup returns
  \<open>None\<close> and the strict lookup raises KeyError.
\<close>

theorem present_key_missed_by_both_lookups:
  "keymap_initialize keymap_new
     [3, 0, 0, 0, 1, 0, 0, 0, 10, 0, 0, 0, 20, 0, 0, 0, 2, 0, 0, 128, 30, 0, 0, 0, 40, 0, 0, 0,
      3, 0, 0, 128, 50, 0, 0, 0, 60, 0, 0, 0] 0 =
     Inr \<lparr>km_ref = [3, 0, 0, 0, 1, 0, 0, 0, 10, 0, 0, 0, 20, 0, 0, 0, 2, 0, 0, 128, 30, 0, 0, 0,
                    40, 0, 0, 0, 3, 0, 0, 128, 50, 0, 0, 0, 60, 0, 0, 0],
          km_data = 4, km_length = 3\<rparr>
   \<and> keymapiter_next (keymap_iteritems
       \<lparr>km_ref = [3, 0, 0, 0, 1, 0, 0, 0, 10, 0, 0, 0, 20, 0, 0, 0, 2, 0, 0, 128, 30, 0, 0, 0,
                  40, 0, 0, 0, 3, 0, 0, 128, 50, 0, 0, 0, 60, 0, 0, 0],
        km_data = 4, km_length = 3\<rparr>) =
     (Inr (Some (PyTuple [PyInt 1, PyTuple [PyInt 10, PyInt 20]])),
      \<lparr>kmi_keymap =
         \<lparr>km_ref = [3, 0, 0, 0, 1, 0, 0, 0, 10, 0, 0, 0, 20, 0, 0, 0, 2, 0, 0, 128, 30, 0, 0, 0,
                    40, 0, 0, 0, 3, 0, 0, 128, 50, 0, 0, 0, 60, 0, 0, 0],
          km_data = 4, km_length = 3\<rparr>,
       kmi_index = 1, kmi_mode = 2\<rparr>)
   \<and> keymap_get Long64
       \<lparr>km_ref = [3, 0, 0, 0, 1, 0, 0, 0, 10, 0, 0, 0, 20, 0, 0, 0, 2, 0, 0, 128, 30, 0, 0, 0,
                  40, 0, 0, 0, 3, 0, 0, 128, 50, 0, 0, 0, 60, 0, 0, 0],
        km_data = 4, km_length = 3\<rparr> (PyInt 1) = Inr PyNone
   \<and> keymap_mp_subscript Long64
       \<lparr>km_ref = [3, 0, 0, 0, 1, 0, 0, 0, 10, 0, 0, 0, 20, 0, 0, 0, 2, 0, 0, 128, 30, 0, 0, 0,
                  40, 0, 0, 0, 3, 0, 0, 128, 50, 0, 0, 0, 60, 0, 0, 0],
        km_data = 4, km_length = 3\<rparr> (PyInt 1) = Inl (Raised (KeyError ''1''))
   \<and> keymap_mp_subscript Long32
       \<lparr>km_ref = [3, 0, 0, 0, 1, 0, 0, 0, 10, 0, 0, 0, 20, 0, 0, 0, 2, 0, 0, 128, 30, 0, 0, 0,
                  40, 0, 0, 0, 3, 0, 0, 128, 50, 0, 0, 0, 60, 0, 0, 0],
        km_data = 4, km_length = 3\<rparr> (PyInt 1) = Inl (Raised (KeyError ''1''))"
  by (simp add: init_eval lookup_eval iter_eval mem_eval fmt_eval)

text \<open>
  Claim C4 on the code. On the key map with the keys 1 and 5 the key \<open>3000000000\<close> is
  absent. The soft lookup returns \<open>None\<close>. The strict lookup raises KeyError, but its
  message is \<open>-1294967296\<close> where \<^verbatim>\<open>long\<close> has 64 bits and \<open>-1\<close> where it has 32, not the key;
  for the absent key 3 the message is \<open>3\<close>.
\<close>

theorem strict_miss_prints_signed_key:
  "keymap_initialize keymap_new
     [2, 0, 0, 0, 1, 0, 0, 0, 10, 0, 0, 0, 20, 0, 0, 0, 5, 0, 0, 0, 30, 0, 0, 0, 40, 0, 0, 0] 0 =
     Inr \<lparr>km_ref = [2, 0, 0, 0, 1, 0, 0, 0, 10, 0, 0, 0, 20, 0, 0, 0,
                    5, 0, 0, 0, 30, 0, 0, 0, 40, 0, 0, 0],
          km_data = 4, km_length = 2\<rparr>
   \<and> keymap_get Long64
       \<lparr>km_ref = [2, 0, 0, 0, 1, 0, 0, 0, 10, 0, 0, 0, 20, 0, 0, 0,
                  5, 0, 0, 0, 30, 0, 0, 0, 40, 0, 0, 0],
        km_data = 4, km_length = 2\<rparr> (PyInt 3000000000) = Inr PyNone
   \<and> keymap_mp_subscript Long64
       \<lparr>km_ref = [2, 0, 0, 0, 1, 0, 0, 0, 10, 0, 0, 0, 20, 0, 0, 0,
                  5, 0, 0, 0, 30, 0, 0, 0, 40, 0, 0, 0],
        km_data = 4, km_length = 2\<rparr> (PyInt 3000000000) =
     Inl (Raised (KeyError ''-1294967296''))
   \<and> keymap_mp_subscript Long32
       \<lparr>km_ref = [2, 0, 0, 0, 1, 0, 0, 0, 10, 0, 0, 0, 20, 0, 0, 0,
                  5, 0, 0, 0, 30, 0, 0, 0, 40, 0, 0, 0],
        km_data = 4, km_length = 2\<rparr> (PyInt 3000000000) =
     Inl (Raised (KeyError ''-1''))
   \<and> keymap_mp_subscript Long64
       \<lparr>km_ref = [2, 0, 0, 0, 1, 0, 0, 0, 10, 0, 0, 0, 20, 0, 0, 0,
                  5, 0, 0, 0, 30, 0, 0, 0, 40, 0, 0, 0],
        km_data = 4, km_length = 2\<rparr> (PyInt 3) =
     Inl (Raised (KeyError ''3''))"
  by (simp add: init_eval lookup_eval mem_eval fmt_eval)

end
